theory Spec2Isabelle
  imports Main "HOL-Library.Multiset" "HOL-Library.AList"
begin

section \<open>Values\<close>

text \<open>
  The ClojureScript entry points of \<open>atomist.main\<close> receive JavaScript values and convert
  them with \<open>js->clj :keywordize-keys true\<close>: an array becomes a vector, a plain object a
  map whose keys are keywords, everything else stays as it is. The result goes back through
  \<open>clj->js\<close>. One datatype holds the values of either side: \<open>VVec\<close> is an array or a
  vector, \<open>VMap\<close> an object or a map given by its entries in iteration order, with
  distinct keys. In a map the key string stands for the keyword made from it. \<open>VNil\<close> is
  \<open>nil\<close>, that is \<open>null\<close>, and also what an absent argument or property reads as. \<open>VKw\<close>
  is a keyword used as a value, which only arises as the key of a map entry when a map is
  read as a sequence. Numbers are opaque to the functions below apart from JavaScript's
  test for zero. The calls to the logger in the ClojureScript functions return \<open>nil\<close> and
  are left out.

  \<open>voteResults\<close> returns elements of its argument, and its two conversions are written
  out in its section. The target store reads and \<open>renderDiff\<close> are given on the
  ClojureScript side, for keys that are plain names without a namespace part.
\<close>

datatype val =
    VNil
  | VBool bool
  | VNum int
  | VStr string
  | VKw string
  | VVec "val list"
  | VMap "(string \<times> val) list"

text \<open>ClojureScript truthiness: everything except \<open>nil\<close> and \<open>false\<close>.\<close>

fun truthy :: "val \<Rightarrow> bool" where
  "truthy VNil = False"
| "truthy (VBool b) = b"
| "truthy _ = True"

text \<open>\<open>(map? x)\<close>\<close>

fun is_map :: "val \<Rightarrow> bool" where
  "is_map (VMap kvs) = True"
| "is_map _ = False"

text \<open>\<open>(:k x)\<close>: the value under keyword \<open>k\<close> of a map, \<open>nil\<close> when the key is missing
  or \<open>x\<close> is not a map.\<close>

fun kw_get :: "string \<Rightarrow> val \<Rightarrow> val" where
  "kw_get k (VMap kvs) = (case map_of kvs k of Some x \<Rightarrow> x | None \<Rightarrow> VNil)"
| "kw_get k _ = VNil"

section \<open>Ballot aggregation\<close>

text \<open>
  \<open>voteResults\<close> hands votes of its argument back in its result, so the two conversions
  at its boundary are written out.

  \<open>(js->clj x :keywordize-keys true)\<close> turns an array into a vector and a plain object
  into a map, converting the elements and property values as well; each property name
  becomes the keyword \<open>(keyword name)\<close>. Two keywords are equal when they were made from the
  same string, so the key string keeps standing for the keyword. The map is built by
  \<open>assoc!\<close> on a transient: up to 8 entries it is an array map, which is iterated in the
  order of insertion; from the ninth entry on it is a hash map, which is iterated by the
  hash of the keys, entries of equal hash in the order of insertion. The hash is not part
  of the sources: \<open>hash_rank\<close>, the position that the hash of a key gives it in that
  iteration, is a parameter.
\<close>

definition map_order :: "(string \<Rightarrow> nat) \<Rightarrow> (string \<times> val) list \<Rightarrow> (string \<times> val) list" where
  "map_order hash_rank kvs =
     (if length kvs \<le> 8 then kvs else sort_key (\<lambda>(k, v). hash_rank k) kvs)"

fun js_to_clj :: "(string \<Rightarrow> nat) \<Rightarrow> val \<Rightarrow> val" where
  "js_to_clj hash_rank (VVec xs) = VVec (map (js_to_clj hash_rank) xs)"
| "js_to_clj hash_rank (VMap kvs) =
     VMap (map_order hash_rank (map (\<lambda>(k, v). (k, js_to_clj hash_rank v)) kvs))"
| "js_to_clj hash_rank x = x"

text \<open>
  \<open>(name (keyword s))\<close>: \<open>keyword\<close> splits the string at \<open>/\<close>; with exactly two parts the
  first is the namespace and the second the name, otherwise the name is the first part.
  The string \<open>/\<close> alone is the name of an unqualified keyword. \<open>split_slash\<close> is
  JavaScript's \<open>s.split("/")\<close>.
\<close>

fun split_slash :: "string \<Rightarrow> string list" where
  "split_slash [] = [[]]"
| "split_slash (c # cs) =
     (if c = CHR ''/'' then [] # split_slash cs
      else (case split_slash cs of [] \<Rightarrow> [[c]] | p # ps \<Rightarrow> (c # p) # ps))"

definition keyword_name :: "string \<Rightarrow> string" where
  "keyword_name k =
     (if k = ''/'' then k
      else (case split_slash k of
              [ns, n] \<Rightarrow> n
            | p # ps \<Rightarrow> p
            | [] \<Rightarrow> []))"

text \<open>
  \<open>(clj->js x)\<close> turns a keyword into its name, a vector into an array and a map into a
  fresh object: for each entry in iteration order it sets the property called by the name
  of the key to the converted value. Setting a property that the object already has
  replaces its value where it stands; a new property goes to the end.
\<close>

definition js_obj :: "(string \<times> val) list \<Rightarrow> (string \<times> val) list" where
  "js_obj kvs = foldl (\<lambda>m (k, v). AList.update k v m) [] kvs"

fun clj_to_js :: "val \<Rightarrow> val" where
  "clj_to_js (VKw k) = VStr (keyword_name k)"
| "clj_to_js (VMap kvs) = VMap (js_obj (map (\<lambda>(k, v). (keyword_name k, clj_to_js v)) kvs))"
| "clj_to_js (VVec xs) = VVec (map clj_to_js xs)"
| "clj_to_js x = x"

text \<open>The object built by \<open>voteResults\<close>.\<close>

record vote_result =
  failed :: bool
  failedFps :: "val list"
  successFps :: "val list"
  failedVotes :: "val list"

text \<open>
  \<^verbatim>\<open>
  (defn ^:export voteResults [votes]
    (let [vs (-> votes (js->clj :keywordize-keys true)
                 (->> (filter #(and (map? %) (:decision %)))))]
      (clj->js {:failed (boolean (some #(= "Against" (:decision %)) vs))
                :failedFps (->> vs (filter #(= "Against" (:decision %))) (map :name))
                :successFps (->> vs (filter #(= "For" (:decision %))) (map :name))
                :failedVotes (->> vs (filter #(= "Against" (:decision %))) (into []))})))
  \<close>
  The argument is the array of votes, given by its elements. The result is the object
  that \<open>clj->js\<close> makes of the map, a record of its four properties.
\<close>

definition decision_is :: "string \<Rightarrow> val \<Rightarrow> bool" where
  "decision_is d v = (kw_get ''decision'' v = VStr d)"

definition voteResults :: "(string \<Rightarrow> nat) \<Rightarrow> val list \<Rightarrow> vote_result" where
  "voteResults hash_rank votes =
     (let vs = filter (\<lambda>v. is_map v \<and> truthy (kw_get ''decision'' v))
                 (map (js_to_clj hash_rank) votes)
      in \<lparr> failed = list_ex (decision_is ''Against'') vs,
           failedFps = map clj_to_js (map (kw_get ''name'') (filter (decision_is ''Against'') vs)),
           successFps = map clj_to_js (map (kw_get ''name'') (filter (decision_is ''For'') vs)),
           failedVotes = map clj_to_js (filter (decision_is ''Against'') vs) \<rparr>)"

text \<open>
  The values that the two conversions give back unchanged: no keyword, and in every
  object at most 8 properties, none of them with a name that its keyword shortens.
\<close>

fun plain :: "val \<Rightarrow> bool" where
  "plain (VKw k) = False"
| "plain (VVec xs) = (\<forall>x \<in> set xs. plain x)"
| "plain (VMap kvs) =
     (length kvs \<le> 8 \<and> distinct (map fst kvs)
      \<and> (\<forall>(k, v) \<in> set kvs. keyword_name k = k \<and> plain v))"
| "plain x = True"

text \<open>
  A ranking of keys for the examples, and an \<open>Against\<close> vote whose target fingerprint has
  a property name with a \<open>/\<close> in it.
\<close>

definition example_hash :: "string \<Rightarrow> nat" where
  "example_hash k = length k"

definition scoped_vote :: val where
  "scoped_vote =
     VMap [(''decision'', VStr ''Against''), (''name'', VStr ''npm-project-deps''),
           (''fpTarget'', VMap [(''name'', VStr ''npm-project-deps''),
                               (''data'', VMap [(''@atomist/sdm'', VStr ''1.0.0'')])])]"

section \<open>Extraction runner\<close>

text \<open>
  JavaScript truthiness of a value (\<open>if (fp)\<close>): \<open>undefined\<close>, \<open>null\<close>, \<open>false\<close>, \<open>0\<close> and
  the empty string are falsy, every object and array is truthy.
\<close>

fun js_truthy :: "val \<Rightarrow> bool" where
  "js_truthy VNil = False"
| "js_truthy (VBool b) = b"
| "js_truthy (VNum n) = (n \<noteq> 0)"
| "js_truthy (VStr s) = (s \<noteq> [])"
| "js_truthy _ = True"

text \<open>\<open>fp instanceof Array\<close>\<close>

fun instanceof_Array :: "val \<Rightarrow> bool" where
  "instanceof_Array (VVec xs) = True"
| "instanceof_Array _ = False"

text \<open>\<open>fps.push(fp)\<close> appends one element; \<open>fps.concat(fp)\<close> returns \<open>fps\<close> followed by the
  elements of \<open>fp\<close> when \<open>fp\<close> is an array, and by \<open>fp\<close> itself otherwise.\<close>

definition js_push :: "val list \<Rightarrow> val \<Rightarrow> val list" where
  "js_push fps fp = fps @ [fp]"

fun js_concat :: "val list \<Rightarrow> val \<Rightarrow> val list" where
  "js_concat fps (VVec xs) = fps @ xs"
| "js_concat fps fp = fps @ [fp]"

text \<open>
  A \<open>FingerprintRegistration\<close>. \<open>extract\<close> is an opaque asynchronous function of the
  project: awaiting it either throws (\<open>Inl\<close>, also for a rejected promise) or yields a
  value (\<open>Inr\<close>). The optional \<open>apply\<close> and \<open>summary\<close> play no part in the runner.
\<close>

record ('p, 'e) registration =
  selector :: "val \<Rightarrow> bool"
  extract_fn :: "'p \<Rightarrow> 'e + val"

text \<open>What the runner writes to the logger.\<close>

datatype 'e log_entry = LogError 'e | LogInfo string

record 'e runner_state =
  fps :: "val list"
  logged :: "'e log_entry list"

text \<open>
  The exported runner:
  \<^verbatim>\<open>
  export function fingerprintRunner(fingerprinters: FingerprintRegistration[]): FingerprintRunner {
      return async (p: GitProject) => {
          let fps: FP[] = new Array<FP>();
          for (const fingerprinter of fingerprinters) {
              try {
                  const fp = await fingerprinter.extract(p);
                  if (fp && !(fp instanceof Array)) {
                      fps.push(fp);
                  } else if (fp) {
                      fps = fps.concat(fp);
                  }
              } catch (e) {
                  logger.error(e);
              }
          }
          logger.info(renderData(fps));
          return fps;
      };
  }
  \<close>
  The \<open>for\<close> loop is the recursion over the registrations, the two variables it changes
  (\<open>fps\<close> and the logger's output) are the state. \<open>renderData\<close> pretty-prints its
  argument; the printer is a parameter. The result is the outcome of the promise that the
  asynchronous function returns (\<open>Inl\<close> a rejection, \<open>Inr\<close> the value it is fulfilled with)
  together with what was logged.
\<close>

fun fingerprintRunner_loop ::
  "('p, 'e) registration list \<Rightarrow> 'p \<Rightarrow> 'e runner_state \<Rightarrow> 'e runner_state" where
  "fingerprintRunner_loop [] p s = s"
| "fingerprintRunner_loop (fingerprinter # rest) p s =
     fingerprintRunner_loop rest p
       (case extract_fn fingerprinter p of
          Inl e \<Rightarrow> s\<lparr>logged := logged s @ [LogError e]\<rparr>
        | Inr fp \<Rightarrow>
            if js_truthy fp \<and> \<not> instanceof_Array fp then s\<lparr>fps := js_push (fps s) fp\<rparr>
            else if js_truthy fp then s\<lparr>fps := js_concat (fps s) fp\<rparr>
            else s)"

definition fingerprintRunner ::
  "(val list \<Rightarrow> string) \<Rightarrow> ('p, 'e) registration list \<Rightarrow> 'p
     \<Rightarrow> ('e + val list) \<times> 'e log_entry list" where
  "fingerprintRunner renderData fingerprinters p =
     (let s = fingerprintRunner_loop fingerprinters p \<lparr>fps = [], logged = []\<rparr>
      in (Inr (fps s), logged s @ [LogInfo (renderData (fps s))]))"

text \<open>
  The runner of \<open>lib/machine/FingerprintSupport.ts\<close> (not exported there), translated from
  its own text:
  \<^verbatim>\<open>
  // TODO error handling goes here
  function fingerprintRunner(fingerprinters: FingerprintRegistration[]): FingerprintRunner {
      return async (p: GitProject) => {
          let fps: FP[] = new Array<FP>();
          for (const fingerprinter of fingerprinters) {
              try {
                  const fp = await fingerprinter.extract(p);
                  if (fp && !(fp instanceof Array)) {
                      fps.push(fp);
                  } else if (fp) {
                      fps = fps.concat(fp);
                  }
              } catch (e) {
                  logger.error(e);
              }
          }
          logger.info(renderData(fps));
          return fps;
      };
  }
  \<close>
\<close>

fun fingerprintRunner_FingerprintSupport_loop ::
  "('p, 'e) registration list \<Rightarrow> 'p \<Rightarrow> 'e runner_state \<Rightarrow> 'e runner_state" where
  "fingerprintRunner_FingerprintSupport_loop [] p s = s"
| "fingerprintRunner_FingerprintSupport_loop (fingerprinter # rest) p s =
     fingerprintRunner_FingerprintSupport_loop rest p
       (case extract_fn fingerprinter p of
          Inl e \<Rightarrow> s\<lparr>logged := logged s @ [LogError e]\<rparr>
        | Inr fp \<Rightarrow>
            if js_truthy fp \<and> \<not> instanceof_Array fp then s\<lparr>fps := js_push (fps s) fp\<rparr>
            else if js_truthy fp then s\<lparr>fps := js_concat (fps s) fp\<rparr>
            else s)"

definition fingerprintRunner_FingerprintSupport ::
  "(val list \<Rightarrow> string) \<Rightarrow> ('p, 'e) registration list \<Rightarrow> 'p
     \<Rightarrow> ('e + val list) \<times> 'e log_entry list" where
  "fingerprintRunner_FingerprintSupport renderData fingerprinters p =
     (let s = fingerprintRunner_FingerprintSupport_loop fingerprinters p \<lparr>fps = [], logged = []\<rparr>
      in (Inr (fps s), logged s @ [LogInfo (renderData (fps s))]))"

text \<open>
  The runner as the specification words it: an extractor that throws contributes nothing,
  one that returns nothing contributes nothing, a sequence contributes its elements, a
  single fingerprint contributes itself; the contributions follow one another in
  registration order.
\<close>

fun contribution :: "'e + val \<Rightarrow> val list" where
  "contribution (Inl e) = []"
| "contribution (Inr (VVec xs)) = xs"
| "contribution (Inr v) = (if js_truthy v then [v] else [])"

definition extraction_spec :: "('p, 'e) registration list \<Rightarrow> 'p \<Rightarrow> val list" where
  "extraction_spec fingerprinters p = concat (map (\<lambda>r. contribution (extract_fn r p)) fingerprinters)"

text \<open>The errors the runner is specified to log, in registration order.\<close>

fun failure :: "'e + val \<Rightarrow> 'e log_entry list" where
  "failure (Inl e) = [LogError e]"
| "failure (Inr v) = []"

text \<open>
  The registrations of the example of the specification: \<open>A\<close> throws, \<open>B\<close> returns one
  fingerprint; and one that returns a sequence and one that returns nothing.
\<close>

definition extractor_A :: "(unit, string) registration" where
  "extractor_A = \<lparr>selector = (\<lambda>fp. False), extract_fn = (\<lambda>p. Inl ''unsupported project layout'')\<rparr>"

definition extractor_B :: "(unit, string) registration" where
  "extractor_B =
     \<lparr>selector = (\<lambda>fp. kw_get ''name'' fp = VStr ''b''),
      extract_fn = (\<lambda>p. Inr (VMap [(''name'', VStr ''b''), (''sha'', VStr ''1''), (''data'', VVec [])]))\<rparr>"

definition extractor_many :: "(unit, string) registration" where
  "extractor_many =
     \<lparr>selector = (\<lambda>fp. True),
      extract_fn = (\<lambda>p. Inr (VVec [VMap [(''name'', VStr ''c'')], VMap [(''name'', VStr ''b'')]]))\<rparr>"

definition extractor_nothing :: "(unit, string) registration" where
  "extractor_nothing = \<lparr>selector = (\<lambda>fp. True), extract_fn = (\<lambda>p. Inr VNil)\<rparr>"

section \<open>Target store reads\<close>

text \<open>
  \<open>(seq x)\<close> as the sequence functions (\<open>first\<close>, \<open>map\<close>, \<open>filter\<close>, \<open>into\<close>) apply it:
  \<open>nil\<close> is the empty sequence, a vector gives its elements, a map its entries as
  key/value pairs, a string its characters; a number, a boolean or a keyword is not
  seqable and the call throws.
\<close>

datatype cljs_error = NotISeqable val

fun seq_of :: "val \<Rightarrow> cljs_error + val list" where
  "seq_of VNil = Inr []"
| "seq_of (VVec xs) = Inr xs"
| "seq_of (VMap kvs) = Inr (map (\<lambda>(k, v). VVec [VKw k, v]) kvs)"
| "seq_of (VStr s) = Inr (map (\<lambda>c. VStr [c]) s)"
| "seq_of v = Inl (NotISeqable v)"

text \<open>\<open>(first x)\<close>: the first element of \<open>(seq x)\<close>, \<open>nil\<close> when there is none.\<close>

definition first_of :: "val \<Rightarrow> cljs_error + val" where
  "first_of x =
     (case seq_of x of
        Inl e \<Rightarrow> Inl e
      | Inr [] \<Rightarrow> Inr VNil
      | Inr (y # ys) \<Rightarrow> Inr y)"

text \<open>\<open>(contains? x :k)\<close>: whether the map \<open>x\<close> has the key; false when \<open>x\<close> is not a
  map (a keyword is never an index of a vector or a string).\<close>

fun contains_key :: "val \<Rightarrow> string \<Rightarrow> bool" where
  "contains_key (VMap kvs) k = (map_of kvs k \<noteq> None)"
| "contains_key _ k = False"

text \<open>
  \<^verbatim>\<open>
  (defn ^:export fpPreferences [query]
    (->>
     (-> query (js->clj :keywordize-keys true) :ChatTeam first :preferences)
     (map (fn [{:keys [name value]}]
            (try
              (json/json->clj value :keywordize-keys true)
              (catch :default x
                (log/error "preference value is not json " x)))))
     (filter (fn [x] (and x (contains? x :name) (contains? x :sha) (contains? x :data))))
     (into [])
     (clj->js)))
  \<close>
  The JSON reader \<open>json/json->clj\<close> is a parameter: applied to the \<open>value\<close> of a
  preference it throws (\<open>Inl\<close>) or returns the parsed value. The \<open>catch\<close> clause logs and
  evaluates to \<open>nil\<close>. The result is the returned array, given by its elements.
\<close>

definition decode_preference :: "(val \<Rightarrow> 'e + val) \<Rightarrow> val \<Rightarrow> val" where
  "decode_preference json_to_clj p =
     (case json_to_clj (kw_get ''value'' p) of
        Inl x \<Rightarrow> VNil
      | Inr v \<Rightarrow> v)"

definition has_fp_shape :: "val \<Rightarrow> bool" where
  "has_fp_shape x =
     (truthy x \<and> contains_key x ''name'' \<and> contains_key x ''sha'' \<and> contains_key x ''data'')"

definition fpPreferences :: "(val \<Rightarrow> 'e + val) \<Rightarrow> val \<Rightarrow> cljs_error + val list" where
  "fpPreferences json_to_clj query =
     (case first_of (kw_get ''ChatTeam'' query) of
        Inl e \<Rightarrow> Inl e
      | Inr team \<Rightarrow>
          (case seq_of (kw_get ''preferences'' team) of
             Inl e \<Rightarrow> Inl e
           | Inr prefs \<Rightarrow> Inr (filter has_fp_shape (map (decode_preference json_to_clj) prefs))))"








section \<open>Rendering a diff\<close>

text \<open>
  \<^verbatim>\<open>
  (defn format-list [xs]
    (->> xs (map #(gstring/format "`%s`" %)) (interpose ",") (apply str)))
  \<close>
  The text that the directive \<open>%s\<close> of \<open>goog.string.format\<close> puts for a value is a
  parameter, \<open>fmt\<close> (for \<open>nil\<close> it is the text of \<open>null\<close>). \<open>goog.string.format\<close> rejects
  an argument that is \<open>undefined\<close>; the values read from a map or a vector here are never
  \<open>undefined\<close>, a missing key reads as \<open>nil\<close>.
\<close>

fun interpose :: "'a \<Rightarrow> 'a list \<Rightarrow> 'a list" where
  "interpose sep [] = []"
| "interpose sep [x] = [x]"
| "interpose sep (x # y # ys) = x # sep # interpose sep (y # ys)"

definition format_list :: "(val \<Rightarrow> string) \<Rightarrow> val \<Rightarrow> cljs_error + string" where
  "format_list fmt xs =
     (case seq_of xs of
        Inl e \<Rightarrow> Inl e
      | Inr ys \<Rightarrow> Inr (concat (interpose '','' (map (\<lambda>y. ''`'' @ fmt y @ ''`'') ys))))"

text \<open>
  \<^verbatim>\<open>
  (defn ^:export renderDiff [diff]
    (log/info "renderDiff" ...)
    (let [event (js->clj diff :keywordize-keys true)
          {:keys [owner repo] {:keys [from to]} :data {fp-name :name} :from} event]
      (if (or from to)
        (gstring/format "%s\n%s/%s %s"
                        (str
                         (if from (gstring/format "removed %s" (format-list from)))
                         (if (and from to) ", ")
                         (if to (gstring/format "added: %s" (format-list to))))
                        owner repo fp-name))))
  \<close>
  The three arguments of \<open>str\<close> are evaluated from left to right; an \<open>if\<close> without an else
  branch is \<open>nil\<close>, which \<open>str\<close> renders as the empty string. Without \<open>from\<close> and \<open>to\<close> the
  function returns \<open>nil\<close>.
\<close>

definition renderDiff :: "(val \<Rightarrow> string) \<Rightarrow> val \<Rightarrow> cljs_error + val" where
  "renderDiff fmt diff =
     (let owner = kw_get ''owner'' diff;
          repo = kw_get ''repo'' diff;
          from = kw_get ''from'' (kw_get ''data'' diff);
          to = kw_get ''to'' (kw_get ''data'' diff);
          fp_name = kw_get ''name'' (kw_get ''from'' diff)
      in if truthy from \<or> truthy to then
           (case (if truthy from
                  then (case format_list fmt from of
                          Inl e \<Rightarrow> Inl e
                        | Inr l \<Rightarrow> Inr (''removed '' @ l))
                  else Inr []) of
              Inl e \<Rightarrow> Inl e
            | Inr removed \<Rightarrow>
                (case (if truthy to
                       then (case format_list fmt to of
                               Inl e \<Rightarrow> Inl e
                             | Inr l \<Rightarrow> Inr (''added: '' @ l))
                       else Inr []) of
                   Inl e \<Rightarrow> Inl e
                 | Inr added \<Rightarrow>
                     Inr (VStr (removed @ (if truthy from \<and> truthy to then '', '' else []) @ added
                                @ [CHR 0x0A] @ fmt owner @ ''/'' @ fmt repo @ '' '' @ fmt fp_name))))
         else Inr VNil)"

text \<open>
  A formatter and two diffs for a first-seen and for a disappeared fingerprint: the first
  has no \<open>data.from\<close> (and no prior fingerprint \<open>from\<close>), the second no \<open>data.to\<close>.
\<close>

fun example_fmt :: "val \<Rightarrow> string" where
  "example_fmt (VStr s) = s"
| "example_fmt v = ''null''"

definition first_seen_diff :: val where
  "first_seen_diff =
     VMap [(''owner'', VStr ''atomist''), (''repo'', VStr ''sdm''),
           (''to'', VMap [(''name'', VStr ''npm-project-dep-left-pad'')]),
           (''data'', VMap [(''to'', VVec [VStr ''left-pad'', VStr ''1.3.0''])])]"

definition disappeared_diff :: val where
  "disappeared_diff =
     VMap [(''owner'', VStr ''atomist''), (''repo'', VStr ''sdm''),
           (''from'', VMap [(''name'', VStr ''npm-project-dep-left-pad'')]),
           (''data'', VMap [(''from'', VVec [VStr ''left-pad'', VStr ''1.0.0''])])]"

section \<open>Properties of the ballot\<close>

lemma map_of_filter_key: "map_of xs k = map_of (filter (\<lambda>p. fst p = k) xs) k"
  by (induction xs) auto

lemma filter_key_sort:
  fixes h :: "string \<Rightarrow> nat" and xs :: "(string \<times> val) list"
  shows "filter (\<lambda>p. fst p = k) (sort_key (\<lambda>(k, v). h k) xs) = filter (\<lambda>p. fst p = k) xs"
proof -
  let ?f = "\<lambda>(k, v). h k"
  have narrow: "filter (\<lambda>p. fst p = k) ys = filter (\<lambda>p. fst p = k) (filter (\<lambda>p. ?f p = h k) ys)"
    for ys :: "(string \<times> val) list"
    by (induction ys) auto
  have "filter (\<lambda>p. fst p = k) (sort_key ?f xs)
          = filter (\<lambda>p. fst p = k) (filter (\<lambda>p. ?f p = h k) (sort_key ?f xs))"
    by (rule narrow)
  also have "\<dots> = filter (\<lambda>p. fst p = k) (filter (\<lambda>p. ?f p = h k) xs)"
    by (simp only: sort_key_stable)
  also have "\<dots> = filter (\<lambda>p. fst p = k) xs"
    by (rule narrow [symmetric])
  finally show ?thesis .
qed

lemma map_of_map_order: "map_of (map_order h kvs) k = map_of kvs k"
proof (cases "length kvs \<le> 8")
  case True
  then show ?thesis by (simp add: map_order_def)
next
  case False
  have "map_of (sort_key (\<lambda>(k, v). h k) kvs) k
          = map_of (filter (\<lambda>p. fst p = k) (sort_key (\<lambda>(k, v). h k) kvs)) k"
    by (rule map_of_filter_key)
  also have "\<dots> = map_of (filter (\<lambda>p. fst p = k) kvs) k"
    by (simp only: filter_key_sort)
  also have "\<dots> = map_of kvs k"
    by (rule map_of_filter_key [symmetric])
  finally show ?thesis using False by (simp add: map_order_def)
qed

lemma set_map_order: "set (map_order h kvs) = set kvs"
  by (simp add: map_order_def)

lemma kw_get_js_to_clj: "kw_get k (js_to_clj h v) = js_to_clj h (kw_get k v)"
proof (cases v)
  case (VMap kvs)
  have "map_of (map (\<lambda>(k, v). (k, js_to_clj h v)) kvs) k = map_option (js_to_clj h) (map_of kvs k)"
    by (simp add: map_of_map)
  then show ?thesis
    using VMap by (cases "map_of kvs k") (simp_all add: map_of_map_order)
qed simp_all

lemma is_map_js_to_clj: "is_map (js_to_clj h v) = is_map v"
  by (cases v) simp_all

lemma js_to_clj_VStr: "(js_to_clj h v = VStr s) = (v = VStr s)"
  by (cases v) auto

lemma truthy_js_to_clj: "truthy (js_to_clj h v) = truthy v"
  by (cases v) simp_all

lemma decision_is_js_to_clj: "decision_is d (js_to_clj h v) = decision_is d v"
  by (simp add: decision_is_def kw_get_js_to_clj js_to_clj_VStr)

lemma decision_is_counted:
  "decision_is d v \<Longrightarrow> is_map v \<and> truthy (kw_get ''decision'' v)"
  by (cases v) (simp_all add: decision_is_def)

lemma converted_votes:
  "filter (decision_is d)
     (filter (\<lambda>v. is_map v \<and> truthy (kw_get ''decision'' v)) (map (js_to_clj h) votes))
     = map (js_to_clj h) (filter (decision_is d) votes)"
proof (induction votes)
  case Nil
  show ?case by simp
next
  case (Cons v votes)
  show ?case
  proof (cases "decision_is d v")
    case True
    then have "decision_is d (js_to_clj h v)"
      by (simp add: decision_is_js_to_clj)
    then show ?thesis
      using True Cons.IH decision_is_counted [of d "js_to_clj h v"] by simp
  next
    case False
    then have "\<not> decision_is d (js_to_clj h v)"
      by (simp add: decision_is_js_to_clj)
    then show ?thesis
      using False Cons.IH by simp
  qed
qed

lemma failed_voteResults:
  "failed (voteResults h votes) = list_ex (decision_is ''Against'') votes"
proof -
  have "failed (voteResults h votes)
          = (filter (decision_is ''Against'')
               (filter (\<lambda>v. is_map v \<and> truthy (kw_get ''decision'' v)) (map (js_to_clj h) votes)) \<noteq> [])"
    by (simp add: voteResults_def Let_def list_ex_iff filter_empty_conv del: filter_filter)
  also have "\<dots> = (filter (decision_is ''Against'') votes \<noteq> [])"
    by (simp only: converted_votes map_is_Nil_conv)
  finally show ?thesis by (simp add: list_ex_iff filter_empty_conv)
qed

lemma failedVotes_voteResults:
  "failedVotes (voteResults h votes)
     = map (\<lambda>v. clj_to_js (js_to_clj h v)) (filter (decision_is ''Against'') votes)"
  by (simp add: voteResults_def Let_def converted_votes del: filter_filter)

lemma failedFps_voteResults:
  "failedFps (voteResults h votes)
     = map (\<lambda>v. clj_to_js (js_to_clj h (kw_get ''name'' v))) (filter (decision_is ''Against'') votes)"
  by (simp add: voteResults_def Let_def converted_votes kw_get_js_to_clj del: filter_filter)

lemma successFps_voteResults:
  "successFps (voteResults h votes)
     = map (\<lambda>v. clj_to_js (js_to_clj h (kw_get ''name'' v))) (filter (decision_is ''For'') votes)"
  by (simp add: voteResults_def Let_def converted_votes kw_get_js_to_clj del: filter_filter)

lemma decision_is_fun: "decision_is d = (\<lambda>v. kw_get ''decision'' v = VStr d)"
  by (rule ext) (simp add: decision_is_def)

text \<open>
  C1. The ballot has failed exactly when some vote in the list has the decision
  \<open>"Against"\<close>; a vote whose decision is \<open>"For"\<close> or \<open>"Abstain"\<close> leaves the verdict of
  the remaining votes as it is, wherever it stands in the list.
\<close>

theorem voteResults_failed_iff_against:
  "(failed (voteResults h votes) \<longleftrightarrow> (\<exists>v \<in> set votes. kw_get ''decision'' v = VStr ''Against''))
   \<and> (kw_get ''decision'' w = VStr ''For'' \<or> kw_get ''decision'' w = VStr ''Abstain''
        \<longrightarrow> failed (voteResults h (xs @ w # ys)) = failed (voteResults h (xs @ ys)))"
  by (auto simp: failed_voteResults list_ex_iff decision_is_def)

theorem voteResults_failed_iff_against_witness:
  "failed (voteResults example_hash
             [VMap [(''decision'', VStr ''For''), (''name'', VStr ''a'')],
              VMap [(''decision'', VStr ''Against''), (''name'', VStr ''b'')]])
   \<and> \<not> failed (voteResults example_hash
             [VMap [(''decision'', VStr ''For''), (''name'', VStr ''a'')],
              VMap [(''decision'', VStr ''Abstain'')]])
   \<and> kw_get ''decision'' (VMap [(''decision'', VStr ''Abstain'')]) = VStr ''Abstain''
   \<and> failed (voteResults example_hash ([VMap [(''decision'', VStr ''Against'')]]
                @ VMap [(''decision'', VStr ''Abstain'')] # []))
      = failed (voteResults example_hash ([VMap [(''decision'', VStr ''Against'')]] @ []))"
  using voteResults_failed_iff_against
          [of example_hash
              "[VMap [(''decision'', VStr ''For''), (''name'', VStr ''a'')],
                VMap [(''decision'', VStr ''Against''), (''name'', VStr ''b'')]]"
              "VMap [(''decision'', VStr ''Abstain'')]"
              "[VMap [(''decision'', VStr ''Against'')]]" "[]"]
        voteResults_failed_iff_against
          [of example_hash
              "[VMap [(''decision'', VStr ''For''), (''name'', VStr ''a'')],
                VMap [(''decision'', VStr ''Abstain'')]]"
              "VMap [(''decision'', VStr ''Abstain'')]" "[]" "[]"]
  by simp

lemma update_fresh: "k \<notin> fst ` set al \<Longrightarrow> AList.update k v al = al @ [(k, v)]"
  by (induction al) auto

lemma foldl_update_distinct:
  "distinct (map fst (acc @ kvs)) \<Longrightarrow> foldl (\<lambda>m (k, v). AList.update k v m) acc kvs = acc @ kvs"
proof (induction kvs arbitrary: acc)
  case Nil
  show ?case by simp
next
  case (Cons p kvs)
  obtain k v where p: "p = (k, v)" by (cases p)
  have fresh: "k \<notin> fst ` set acc" using Cons.prems p by auto
  have d: "distinct (map fst ((acc @ [(k, v)]) @ kvs))" using Cons.prems p by simp
  show ?case
    using Cons.IH [OF d] by (simp add: p update_fresh [OF fresh])
qed

lemma js_obj_distinct: "distinct (map fst kvs) \<Longrightarrow> js_obj kvs = kvs"
  using foldl_update_distinct [of "[]" kvs] by (simp add: js_obj_def)

lemma dom_foldl_update:
  "fst ` set (foldl (\<lambda>m (k, v). AList.update k v m) acc kvs) = fst ` set acc \<union> fst ` set kvs"
proof (induction kvs arbitrary: acc)
  case Nil
  show ?case by simp
next
  case (Cons p kvs)
  obtain k v where p: "p = (k, v)" by (cases p)
  show ?case by (simp add: p Cons.IH dom_update)
qed

lemma dom_js_obj: "fst ` set (js_obj kvs) = fst ` set kvs"
  by (simp add: js_obj_def dom_foldl_update)

lemma plain_js_to_clj: "plain v \<Longrightarrow> js_to_clj h v = v"
proof (induction v)
  case (VVec xs)
  then show ?case by (simp add: map_idI)
next
  case (VMap kvs)
  have "map (\<lambda>(k, v). (k, js_to_clj h v)) kvs = kvs"
  proof (rule map_idI)
    fix p assume m: "p \<in> set kvs"
    obtain k v where p: "p = (k, v)" by (cases p)
    have "plain v" using VMap.prems m p by auto
    then have "js_to_clj h v = v" using VMap.IH [of p v] m p by simp
    then show "(case p of (k, v) \<Rightarrow> (k, js_to_clj h v)) = p" by (simp add: p)
  qed
  then show ?case using VMap.prems by (simp add: map_order_def)
qed simp_all

lemma plain_clj_to_js: "plain v \<Longrightarrow> clj_to_js v = v"
proof (induction v)
  case (VVec xs)
  then show ?case by (simp add: map_idI)
next
  case (VMap kvs)
  have "map (\<lambda>(k, v). (keyword_name k, clj_to_js v)) kvs = kvs"
  proof (rule map_idI)
    fix p assume m: "p \<in> set kvs"
    obtain k v where p: "p = (k, v)" by (cases p)
    have pl: "plain v" and kn: "keyword_name k = k" using VMap.prems m p by auto
    have "clj_to_js v = v" using VMap.IH [of p v] m p pl by simp
    then show "(case p of (k, v) \<Rightarrow> (keyword_name k, clj_to_js v)) = p" by (simp add: p kn)
  qed
  then show ?case using VMap.prems by (simp add: js_obj_distinct)
qed simp_all

lemma plain_round_trip: "plain v \<Longrightarrow> clj_to_js (js_to_clj h v) = v"
  by (simp add: plain_js_to_clj plain_clj_to_js)

lemma plain_kw_get: "plain v \<Longrightarrow> plain (kw_get k v)"
proof (cases v)
  case (VMap kvs)
  assume pl: "plain v"
  show ?thesis
  proof (cases "map_of kvs k")
    case None
    then show ?thesis using VMap by simp
  next
    case (Some x)
    then have "(k, x) \<in> set kvs" by (rule map_of_SomeD)
    then have "plain x" using pl VMap by auto
    then show ?thesis using VMap Some by simp
  qed
qed simp_all

lemma scoped_vote_converted:
  "clj_to_js (js_to_clj example_hash scoped_vote)
     = VMap [(''decision'', VStr ''Against''), (''name'', VStr ''npm-project-deps''),
             (''fpTarget'', VMap [(''name'', VStr ''npm-project-deps''),
                                 (''data'', VMap [(''sdm'', VStr ''1.0.0'')])])]"
  by (simp add: scoped_vote_def map_order_def js_obj_def keyword_name_def)

text \<open>
  C4, as the claim states it, fails: the element of \<open>failedVotes\<close> for an \<open>Against\<close> vote
  with the property name \<open>@atomist/sdm\<close> in its target is not that vote, the property has
  come back as \<open>sdm\<close>.
\<close>

theorem voteResults_failedVotes_counterexample:
  "failedVotes (voteResults example_hash [scoped_vote]) \<noteq> filter (decision_is ''Against'') [scoped_vote]"
proof -
  have a: "decision_is ''Against'' scoped_vote"
    by (simp add: decision_is_def scoped_vote_def)
  have "failedVotes (voteResults example_hash [scoped_vote])
          = [clj_to_js (js_to_clj example_hash scoped_vote)]"
    using a by (simp add: failedVotes_voteResults)
  moreover have "clj_to_js (js_to_clj example_hash scoped_vote) \<noteq> scoped_vote"
    by (simp only: scoped_vote_converted) (simp add: scoped_vote_def)
  ultimately show ?thesis using a by simp
qed

text \<open>
  C4, amended. \<open>failedVotes\<close> holds, in their original order, the votes whose decision is
  \<open>"Against"\<close>, each as it comes back from \<open>js->clj\<close> followed by \<open>clj->js\<close>; \<open>failedFps\<close>
  lists the names, converted in the same way, of exactly those votes and \<open>successFps\<close> the
  names of exactly the votes whose decision is \<open>"For"\<close>. When every vote is a value that the
  conversions give back unchanged, \<open>failedVotes\<close> is the subsequence of the \<open>Against\<close> votes
  themselves, and the two name lists are their names and the names of the \<open>For\<close> votes.
\<close>

theorem voteResults_partition_converted:
  "failedVotes (voteResults h votes)
     = map (\<lambda>v. clj_to_js (js_to_clj h v)) (filter (\<lambda>v. kw_get ''decision'' v = VStr ''Against'') votes)
   \<and> failedFps (voteResults h votes)
       = map (\<lambda>v. clj_to_js (js_to_clj h (kw_get ''name'' v)))
           (filter (\<lambda>v. kw_get ''decision'' v = VStr ''Against'') votes)
   \<and> successFps (voteResults h votes)
       = map (\<lambda>v. clj_to_js (js_to_clj h (kw_get ''name'' v)))
           (filter (\<lambda>v. kw_get ''decision'' v = VStr ''For'') votes)
   \<and> ((\<forall>v \<in> set votes. plain v) \<longrightarrow>
        failedVotes (voteResults h votes) = filter (\<lambda>v. kw_get ''decision'' v = VStr ''Against'') votes
        \<and> failedFps (voteResults h votes)
            = map (kw_get ''name'') (filter (\<lambda>v. kw_get ''decision'' v = VStr ''Against'') votes)
        \<and> successFps (voteResults h votes)
            = map (kw_get ''name'') (filter (\<lambda>v. kw_get ''decision'' v = VStr ''For'') votes))"
proof -
  have general:
    "failedVotes (voteResults h votes)
       = map (\<lambda>v. clj_to_js (js_to_clj h v)) (filter (\<lambda>v. kw_get ''decision'' v = VStr ''Against'') votes)"
    "failedFps (voteResults h votes)
       = map (\<lambda>v. clj_to_js (js_to_clj h (kw_get ''name'' v)))
           (filter (\<lambda>v. kw_get ''decision'' v = VStr ''Against'') votes)"
    "successFps (voteResults h votes)
       = map (\<lambda>v. clj_to_js (js_to_clj h (kw_get ''name'' v)))
           (filter (\<lambda>v. kw_get ''decision'' v = VStr ''For'') votes)"
    by (simp_all add: failedVotes_voteResults failedFps_voteResults successFps_voteResults
          decision_is_fun)
  have unchanged:
    "map (\<lambda>v. clj_to_js (js_to_clj h v)) (filter P votes) = filter P votes"
    "map (\<lambda>v. clj_to_js (js_to_clj h (kw_get ''name'' v))) (filter P votes)
       = map (kw_get ''name'') (filter P votes)"
    if "\<forall>v \<in> set votes. plain v" for P
    using that by (auto intro!: map_idI map_cong simp: plain_round_trip plain_kw_get)
  show ?thesis
    using general unchanged by simp
qed

theorem voteResults_partition_converted_witness:
  "failedVotes (voteResults example_hash
       [VMap [(''decision'', VStr ''For''), (''name'', VStr ''a'')],
        VMap [(''decision'', VStr ''Against''), (''name'', VStr ''b'')],
        VMap [(''decision'', VStr ''Abstain''), (''name'', VStr ''c'')],
        VMap [(''decision'', VStr ''Against''), (''name'', VStr ''d'')]])
     = [VMap [(''decision'', VStr ''Against''), (''name'', VStr ''b'')],
        VMap [(''decision'', VStr ''Against''), (''name'', VStr ''d'')]]
   \<and> failedFps (voteResults example_hash
       [VMap [(''decision'', VStr ''For''), (''name'', VStr ''a'')],
        VMap [(''decision'', VStr ''Against''), (''name'', VStr ''b'')],
        VMap [(''decision'', VStr ''Abstain''), (''name'', VStr ''c'')],
        VMap [(''decision'', VStr ''Against''), (''name'', VStr ''d'')]])
     = [VStr ''b'', VStr ''d'']
   \<and> successFps (voteResults example_hash
       [VMap [(''decision'', VStr ''For''), (''name'', VStr ''a'')],
        VMap [(''decision'', VStr ''Against''), (''name'', VStr ''b'')],
        VMap [(''decision'', VStr ''Abstain''), (''name'', VStr ''c'')],
        VMap [(''decision'', VStr ''Against''), (''name'', VStr ''d'')]])
     = [VStr ''a'']
   \<and> failedVotes (voteResults example_hash [scoped_vote])
     = [VMap [(''decision'', VStr ''Against''), (''name'', VStr ''npm-project-deps''),
              (''fpTarget'', VMap [(''name'', VStr ''npm-project-deps''),
                                  (''data'', VMap [(''sdm'', VStr ''1.0.0'')])])]]"
proof -
  have pl: "\<forall>v \<in> set [VMap [(''decision'', VStr ''For''), (''name'', VStr ''a'')],
                        VMap [(''decision'', VStr ''Against''), (''name'', VStr ''b'')],
                        VMap [(''decision'', VStr ''Abstain''), (''name'', VStr ''c'')],
                        VMap [(''decision'', VStr ''Against''), (''name'', VStr ''d'')]]. plain v"
    by (simp add: keyword_name_def)
  have a: "kw_get ''decision'' scoped_vote = VStr ''Against''"
    by (simp add: scoped_vote_def)
  have plain_case:
    "failedVotes (voteResults example_hash
         [VMap [(''decision'', VStr ''For''), (''name'', VStr ''a'')],
          VMap [(''decision'', VStr ''Against''), (''name'', VStr ''b'')],
          VMap [(''decision'', VStr ''Abstain''), (''name'', VStr ''c'')],
          VMap [(''decision'', VStr ''Against''), (''name'', VStr ''d'')]])
       = [VMap [(''decision'', VStr ''Against''), (''name'', VStr ''b'')],
          VMap [(''decision'', VStr ''Against''), (''name'', VStr ''d'')]]
     \<and> failedFps (voteResults example_hash
         [VMap [(''decision'', VStr ''For''), (''name'', VStr ''a'')],
          VMap [(''decision'', VStr ''Against''), (''name'', VStr ''b'')],
          VMap [(''decision'', VStr ''Abstain''), (''name'', VStr ''c'')],
          VMap [(''decision'', VStr ''Against''), (''name'', VStr ''d'')]])
       = [VStr ''b'', VStr ''d'']
     \<and> successFps (voteResults example_hash
         [VMap [(''decision'', VStr ''For''), (''name'', VStr ''a'')],
          VMap [(''decision'', VStr ''Against''), (''name'', VStr ''b'')],
          VMap [(''decision'', VStr ''Abstain''), (''name'', VStr ''c'')],
          VMap [(''decision'', VStr ''Against''), (''name'', VStr ''d'')]])
       = [VStr ''a'']"
    using voteResults_partition_converted
            [of example_hash
                "[VMap [(''decision'', VStr ''For''), (''name'', VStr ''a'')],
                  VMap [(''decision'', VStr ''Against''), (''name'', VStr ''b'')],
                  VMap [(''decision'', VStr ''Abstain''), (''name'', VStr ''c'')],
                  VMap [(''decision'', VStr ''Against''), (''name'', VStr ''d'')]]",
             THEN conjunct2, THEN conjunct2, THEN conjunct2, THEN mp, OF pl]
    by simp
  have "failedVotes (voteResults example_hash [scoped_vote])
          = map (\<lambda>v. clj_to_js (js_to_clj example_hash v))
              (filter (\<lambda>v. kw_get ''decision'' v = VStr ''Against'') [scoped_vote])"
    by (rule voteResults_partition_converted [of example_hash "[scoped_vote]", THEN conjunct1])
  then have scoped_case:
    "failedVotes (voteResults example_hash [scoped_vote])
       = [VMap [(''decision'', VStr ''Against''), (''name'', VStr ''npm-project-deps''),
                (''fpTarget'', VMap [(''name'', VStr ''npm-project-deps''),
                                    (''data'', VMap [(''sdm'', VStr ''1.0.0'')])])]]"
    using a by (simp add: scoped_vote_converted)
  show ?thesis
    using plain_case scoped_case by (simp only: simp_thms)
qed

text \<open>
  C6. Two vote lists that are permutations of one another give the same verdict and the
  same names, counted with multiplicity, in \<open>failedFps\<close> and in \<open>successFps\<close>.
\<close>

theorem voteResults_order_insensitive:
  assumes "mset votes' = mset votes"
  shows "failed (voteResults h votes') = failed (voteResults h votes)
     \<and> mset (failedFps (voteResults h votes')) = mset (failedFps (voteResults h votes))
     \<and> mset (successFps (voteResults h votes')) = mset (successFps (voteResults h votes))"
proof -
  have s: "set votes' = set votes" using assms by (rule mset_eq_setD)
  have f: "failed (voteResults h votes') = failed (voteResults h votes)"
    by (simp add: failed_voteResults list_ex_iff s)
  have n: "mset (map (\<lambda>v. clj_to_js (js_to_clj h (kw_get ''name'' v))) (filter (decision_is d) votes'))
         = mset (map (\<lambda>v. clj_to_js (js_to_clj h (kw_get ''name'' v))) (filter (decision_is d) votes))"
    for d
    by (simp add: assms)
  show ?thesis
    using f n [of "''Against''"] n [of "''For''"]
    by (simp only: failedFps_voteResults successFps_voteResults simp_thms)
qed

theorem voteResults_order_insensitive_witness:
  "mset [VMap [(''decision'', VStr ''Against''), (''name'', VStr ''b'')],
         VMap [(''decision'', VStr ''For''), (''name'', VStr ''a'')]]
     = mset [VMap [(''decision'', VStr ''For''), (''name'', VStr ''a'')],
             VMap [(''decision'', VStr ''Against''), (''name'', VStr ''b'')]]
   \<and> failed (voteResults example_hash
               [VMap [(''decision'', VStr ''Against''), (''name'', VStr ''b'')],
                VMap [(''decision'', VStr ''For''), (''name'', VStr ''a'')]])
     = failed (voteResults example_hash
                 [VMap [(''decision'', VStr ''For''), (''name'', VStr ''a'')],
                  VMap [(''decision'', VStr ''Against''), (''name'', VStr ''b'')]])
   \<and> mset (failedFps (voteResults example_hash
               [VMap [(''decision'', VStr ''Against''), (''name'', VStr ''b'')],
                VMap [(''decision'', VStr ''For''), (''name'', VStr ''a'')]]))
     = mset (failedFps (voteResults example_hash
                 [VMap [(''decision'', VStr ''For''), (''name'', VStr ''a'')],
                  VMap [(''decision'', VStr ''Against''), (''name'', VStr ''b'')]]))
   \<and> mset (successFps (voteResults example_hash
               [VMap [(''decision'', VStr ''Against''), (''name'', VStr ''b'')],
                VMap [(''decision'', VStr ''For''), (''name'', VStr ''a'')]]))
     = mset (successFps (voteResults example_hash
                 [VMap [(''decision'', VStr ''For''), (''name'', VStr ''a'')],
                  VMap [(''decision'', VStr ''Against''), (''name'', VStr ''b'')]]))"
proof -
  have h: "mset [VMap [(''decision'', VStr ''Against''), (''name'', VStr ''b'')],
                 VMap [(''decision'', VStr ''For''), (''name'', VStr ''a'')]]
         = mset [VMap [(''decision'', VStr ''For''), (''name'', VStr ''a'')],
                 VMap [(''decision'', VStr ''Against''), (''name'', VStr ''b'')]]"
    by (simp add: add.commute)
  show ?thesis
    using h voteResults_order_insensitive [OF h, of example_hash] by (intro conjI) simp_all
qed

lemma not_counted_filtered:
  "\<not> is_map x \<or> \<not> contains_key x ''decision'' \<Longrightarrow> \<not> (is_map x \<and> truthy (kw_get ''decision'' x))"
  by (cases x) (auto split: option.splits)

lemma converted_has_decision:
  assumes "decision_is d v"
  shows "is_map (clj_to_js (js_to_clj h v)) \<and> contains_key (clj_to_js (js_to_clj h v)) ''decision''"
proof (cases v)
  case (VMap kvs)
  have "map_of kvs ''decision'' \<noteq> None"
    using assms VMap by (auto simp: decision_is_def split: option.splits)
  then have "''decision'' \<in> fst ` set kvs"
    by (simp add: map_of_eq_None_iff)
  then have "keyword_name ''decision''
      \<in> fst ` set (map (\<lambda>(k, v). (keyword_name k, clj_to_js v))
                     (map_order h (map (\<lambda>(k, v). (k, js_to_clj h v)) kvs)))"
    by (force simp: set_map_order)
  then have "''decision''
      \<in> fst ` set (js_obj (map (\<lambda>(k, v). (keyword_name k, clj_to_js v))
                     (map_order h (map (\<lambda>(k, v). (k, js_to_clj h v)) kvs))))"
    by (simp only: dom_js_obj) (simp add: keyword_name_def)
  then show ?thesis
    using VMap by (simp add: map_of_eq_None_iff)
qed (use assms in \<open>simp_all add: decision_is_def\<close>)

text \<open>
  C9. An element of the vote list that is not a map, or that is a map without a
  \<open>decision\<close> field (such as \<open>{abstain: true}\<close>), is ignored: the result is the one of the
  list without that element, the element is never among \<open>failedVotes\<close>, and on its own it
  gives an empty ballot that has not failed.
\<close>

theorem voteResults_ignores_non_votes:
  assumes "\<not> is_map x \<or> \<not> contains_key x ''decision''"
  shows "voteResults h (xs @ x # ys) = voteResults h (xs @ ys)
     \<and> x \<notin> set (failedVotes (voteResults h votes))
     \<and> (failed (voteResults h [x]) = False \<and> failedFps (voteResults h [x]) = []
          \<and> successFps (voteResults h [x]) = [] \<and> failedVotes (voteResults h [x]) = [])"
proof -
  have "\<not> (is_map x \<and> truthy (kw_get ''decision'' x))"
    using assms by (rule not_counted_filtered)
  then have dropped: "\<not> (is_map (js_to_clj h x) \<and> truthy (kw_get ''decision'' (js_to_clj h x)))"
    by (simp add: is_map_js_to_clj kw_get_js_to_clj truthy_js_to_clj)
  have removal: "voteResults h (xs @ x # ys) = voteResults h (xs @ ys)"
    using dropped by (simp add: voteResults_def Let_def)
  have alone: "failed (voteResults h [x]) = False \<and> failedFps (voteResults h [x]) = []
          \<and> successFps (voteResults h [x]) = [] \<and> failedVotes (voteResults h [x]) = []"
    using dropped by (simp add: voteResults_def Let_def)
  have absent: "x \<notin> set (failedVotes (voteResults h votes))"
  proof
    assume "x \<in> set (failedVotes (voteResults h votes))"
    then obtain v where "decision_is ''Against'' v" and "x = clj_to_js (js_to_clj h v)"
      by (auto simp: failedVotes_voteResults)
    then have "is_map x \<and> contains_key x ''decision''"
      using converted_has_decision [of "''Against''" v h] by simp
    then show False using assms by simp
  qed
  show ?thesis using removal absent alone by simp
qed

theorem voteResults_ignores_non_votes_witness:
  "\<not> contains_key (VMap [(''abstain'', VBool True)]) ''decision''
   \<and> voteResults example_hash ([VMap [(''decision'', VStr ''For''), (''name'', VStr ''a'')]]
                   @ VMap [(''abstain'', VBool True)] # [VNum 3])
     = voteResults example_hash ([VMap [(''decision'', VStr ''For''), (''name'', VStr ''a'')]] @ [VNum 3])
   \<and> voteResults example_hash [VMap [(''abstain'', VBool True)]]
     = \<lparr>failed = False, failedFps = [], successFps = [], failedVotes = []\<rparr>"
proof -
  have h: "\<not> is_map (VMap [(''abstain'', VBool True)])
      \<or> \<not> contains_key (VMap [(''abstain'', VBool True)]) ''decision''"
    by simp
  show ?thesis
    using h voteResults_ignores_non_votes
              [OF h, of example_hash "[VMap [(''decision'', VStr ''For''), (''name'', VStr ''a'')]]"
                  "[VNum 3]" "[]"]
    by (simp add: voteResults_def map_order_def)
qed

section \<open>Properties of the extraction runner\<close>

lemma fingerprintRunner_loop_fps:
  "fps (fingerprintRunner_loop rs p s) = fps s @ extraction_spec rs p"
proof (induction rs arbitrary: s)
  case Nil
  show ?case by (simp add: extraction_spec_def)
next
  case (Cons r rs)
  show ?case
  proof (cases "extract_fn r p")
    case (Inl e)
    then show ?thesis by (simp add: Cons.IH extraction_spec_def)
  next
    case (Inr fp)
    then show ?thesis
      by (cases fp) (simp_all add: Cons.IH extraction_spec_def js_push_def)
  qed
qed

lemma fingerprintRunner_loop_logged:
  "logged (fingerprintRunner_loop rs p s) = logged s @ concat (map (\<lambda>r. failure (extract_fn r p)) rs)"
proof (induction rs arbitrary: s)
  case Nil
  show ?case by simp
next
  case (Cons r rs)
  show ?case
    by (cases "extract_fn r p") (simp_all add: Cons.IH)
qed

lemma loops_agree:
  "fingerprintRunner_FingerprintSupport_loop rs p s = fingerprintRunner_loop rs p s"
  by (induction rs arbitrary: s) simp_all

text \<open>
  C2. The promise of the runner is always fulfilled, never rejected, and its value is the
  concatenation, in registration order and with nothing removed, of what each extractor
  contributes: nothing when it throws or returns nothing, its elements when it returns a
  sequence, the fingerprint itself otherwise. Each thrown error is logged. Taking a
  throwing extractor out of the registrations does not change the fingerprints returned.
\<close>

theorem fingerprintRunner_isolates_failures:
  "fingerprintRunner renderData rs p =
     (Inr (extraction_spec rs p),
      concat (map (\<lambda>r. failure (extract_fn r p)) rs) @ [LogInfo (renderData (extraction_spec rs p))])
   \<and> (extract_fn r p = Inl e \<longrightarrow>
        fst (fingerprintRunner renderData (xs @ r # ys) p) = fst (fingerprintRunner renderData (xs @ ys) p))"
  by (simp add: fingerprintRunner_def Let_def fingerprintRunner_loop_fps fingerprintRunner_loop_logged
        extraction_spec_def)

theorem fingerprintRunner_isolates_failures_witness:
  "fingerprintRunner (\<lambda>fps. ''fps'')
       [extractor_A, extractor_B, extractor_many, extractor_nothing, extractor_B] ()
     = (Inr [VMap [(''name'', VStr ''b''), (''sha'', VStr ''1''), (''data'', VVec [])],
             VMap [(''name'', VStr ''c'')], VMap [(''name'', VStr ''b'')],
             VMap [(''name'', VStr ''b''), (''sha'', VStr ''1''), (''data'', VVec [])]],
        [LogError ''unsupported project layout'', LogInfo ''fps''])
   \<and> extract_fn extractor_A () = Inl ''unsupported project layout''
   \<and> fst (fingerprintRunner (\<lambda>fps. ''fps'') ([] @ extractor_A # [extractor_B]) ())
     = fst (fingerprintRunner (\<lambda>fps. ''fps'') ([] @ [extractor_B]) ())
   \<and> fst (fingerprintRunner (\<lambda>fps. ''fps'') ([] @ [extractor_B]) ())
     = Inr [VMap [(''name'', VStr ''b''), (''sha'', VStr ''1''), (''data'', VVec [])]]"
  using fingerprintRunner_isolates_failures
          [of "\<lambda>fps. ''fps''" "[extractor_A, extractor_B, extractor_many, extractor_nothing, extractor_B]"
              "()" extractor_A "''unsupported project layout''" "[]" "[extractor_B]"]
        fingerprintRunner_isolates_failures
          [of "\<lambda>fps. ''fps''" "[extractor_B]" "()" extractor_A "''unsupported project layout''" "[]" "[]"]
  by (simp add: extraction_spec_def extractor_A_def extractor_B_def extractor_many_def
        extractor_nothing_def)

text \<open>
  C10. The runner of \<open>lib/machine/FingerprintSupport.ts\<close> and the exported runner return
  the same outcome and log the same entries, for every list of registrations and every
  outcome of each \<open>extract\<close> call.
\<close>

theorem fingerprintRunner_implementations_agree:
  "fingerprintRunner_FingerprintSupport renderData rs p = fingerprintRunner renderData rs p"
  by (simp add: fingerprintRunner_FingerprintSupport_def fingerprintRunner_def loops_agree)

theorem fingerprintRunner_implementations_agree_witness:
  "fingerprintRunner_FingerprintSupport (\<lambda>fps. ''fps'')
       [extractor_A, extractor_many, extractor_nothing, extractor_B] ()
     = fingerprintRunner (\<lambda>fps. ''fps'') [extractor_A, extractor_many, extractor_nothing, extractor_B] ()
   \<and> fingerprintRunner_FingerprintSupport (\<lambda>fps. ''fps'')
       [extractor_A, extractor_many, extractor_nothing, extractor_B] ()
     = (Inr [VMap [(''name'', VStr ''c'')], VMap [(''name'', VStr ''b'')],
             VMap [(''name'', VStr ''b''), (''sha'', VStr ''1''), (''data'', VVec [])]],
        [LogError ''unsupported project layout'', LogInfo ''fps''])"
  using fingerprintRunner_implementations_agree
          [of "\<lambda>fps. ''fps''" "[extractor_A, extractor_many, extractor_nothing, extractor_B]" "()"]
  by (simp add: fingerprintRunner_def extractor_A_def extractor_B_def extractor_many_def
        extractor_nothing_def js_push_def)

section \<open>Properties of the target store reads\<close>









text \<open>Outside that reading the call throws: a \<open>ChatTeam\<close> that is a number is not seqable.\<close>

lemma fpPreferences_not_seqable:
  "fpPreferences json (VMap [(''ChatTeam'', VNum 5)]) = Inl (NotISeqable (VNum 5))"
  by (simp add: fpPreferences_def first_of_def)








section \<open>Properties of the rendered diff\<close>

lemma format_list_VVec:
  "format_list fmt (VVec ts) = Inr (concat (interpose '','' (map (\<lambda>y. ''`'' @ fmt y @ ''`'') ts)))"
  by (simp add: format_list_def)

lemma renderDiff_added:
  assumes "kw_get ''from'' (kw_get ''data'' diff) = VNil"
    and "kw_get ''to'' (kw_get ''data'' diff) = VVec ts"
  shows "renderDiff fmt diff
        = Inr (VStr (''added: '' @ concat (interpose '','' (map (\<lambda>y. ''`'' @ fmt y @ ''`'') ts))
                     @ [CHR 0x0A] @ fmt (kw_get ''owner'' diff) @ ''/'' @ fmt (kw_get ''repo'' diff)
                     @ '' '' @ fmt (kw_get ''name'' (kw_get ''from'' diff))))"
  unfolding renderDiff_def Let_def assms format_list_VVec
  by simp

lemma renderDiff_removed:
  assumes "kw_get ''to'' (kw_get ''data'' diff) = VNil"
    and "kw_get ''from'' (kw_get ''data'' diff) = VVec fs"
  shows "renderDiff fmt diff
        = Inr (VStr (''removed '' @ concat (interpose '','' (map (\<lambda>y. ''`'' @ fmt y @ ''`'') fs))
                     @ [CHR 0x0A] @ fmt (kw_get ''owner'' diff) @ ''/'' @ fmt (kw_get ''repo'' diff)
                     @ '' '' @ fmt (kw_get ''name'' (kw_get ''from'' diff))))"
  unfolding renderDiff_def Let_def assms format_list_VVec
  by simp

text \<open>
  C8. For a diff whose \<open>data.from\<close> is absent and whose \<open>data.to\<close> is an array,
  \<open>renderDiff\<close> returns, without throwing, the text \<open>added:\<close> followed by every element of
  \<open>to\<close> and by the coordinates, and no \<open>removed\<close> part; for a diff whose \<open>data.to\<close> is
  absent and whose \<open>data.from\<close> is an array it returns the text \<open>removed\<close> followed by every
  element of \<open>from\<close> and by the coordinates, and no \<open>added\<close> part.
\<close>

theorem renderDiff_one_sided:
  "(kw_get ''from'' (kw_get ''data'' diff) = VNil \<and> kw_get ''to'' (kw_get ''data'' diff) = VVec ts \<longrightarrow>
      renderDiff fmt diff
        = Inr (VStr (''added: '' @ concat (interpose '','' (map (\<lambda>y. ''`'' @ fmt y @ ''`'') ts))
                     @ [CHR 0x0A] @ fmt (kw_get ''owner'' diff) @ ''/'' @ fmt (kw_get ''repo'' diff)
                     @ '' '' @ fmt (kw_get ''name'' (kw_get ''from'' diff)))))
   \<and> (kw_get ''to'' (kw_get ''data'' diff) = VNil \<and> kw_get ''from'' (kw_get ''data'' diff) = VVec fs \<longrightarrow>
      renderDiff fmt diff
        = Inr (VStr (''removed '' @ concat (interpose '','' (map (\<lambda>y. ''`'' @ fmt y @ ''`'') fs))
                     @ [CHR 0x0A] @ fmt (kw_get ''owner'' diff) @ ''/'' @ fmt (kw_get ''repo'' diff)
                     @ '' '' @ fmt (kw_get ''name'' (kw_get ''from'' diff)))))"
  using renderDiff_added [of diff ts fmt] renderDiff_removed [of diff fs fmt]
  by (intro conjI impI) (elim conjE, assumption)+

theorem renderDiff_one_sided_witness:
  "kw_get ''from'' (kw_get ''data'' first_seen_diff) = VNil
   \<and> kw_get ''to'' (kw_get ''data'' first_seen_diff) = VVec [VStr ''left-pad'', VStr ''1.3.0'']
   \<and> renderDiff example_fmt first_seen_diff
       = Inr (VStr (''added: `left-pad`,`1.3.0`'' @ [CHR 0x0A] @ ''atomist/sdm null''))
   \<and> kw_get ''to'' (kw_get ''data'' disappeared_diff) = VNil
   \<and> kw_get ''from'' (kw_get ''data'' disappeared_diff) = VVec [VStr ''left-pad'', VStr ''1.0.0'']
   \<and> renderDiff example_fmt disappeared_diff
       = Inr (VStr (''removed `left-pad`,`1.0.0`'' @ [CHR 0x0A]
                    @ ''atomist/sdm npm-project-dep-left-pad''))"
proof -
  have a: "kw_get ''from'' (kw_get ''data'' first_seen_diff) = VNil
      \<and> kw_get ''to'' (kw_get ''data'' first_seen_diff) = VVec [VStr ''left-pad'', VStr ''1.3.0'']"
    by (simp add: first_seen_diff_def)
  have r: "kw_get ''to'' (kw_get ''data'' disappeared_diff) = VNil
      \<and> kw_get ''from'' (kw_get ''data'' disappeared_diff) = VVec [VStr ''left-pad'', VStr ''1.0.0'']"
    by (simp add: disappeared_diff_def)
  have o: "kw_get ''owner'' first_seen_diff = VStr ''atomist''
      \<and> kw_get ''repo'' first_seen_diff = VStr ''sdm''
      \<and> kw_get ''name'' (kw_get ''from'' first_seen_diff) = VNil
      \<and> kw_get ''owner'' disappeared_diff = VStr ''atomist''
      \<and> kw_get ''repo'' disappeared_diff = VStr ''sdm''
      \<and> kw_get ''name'' (kw_get ''from'' disappeared_diff) = VStr ''npm-project-dep-left-pad''"
    by (simp add: first_seen_diff_def disappeared_diff_def)
  show ?thesis
    using a r o
      renderDiff_one_sided
        [of first_seen_diff "[VStr ''left-pad'', VStr ''1.3.0'']" example_fmt
            "[VStr ''left-pad'', VStr ''1.0.0'']"]
      renderDiff_one_sided
        [of disappeared_diff "[VStr ''left-pad'', VStr ''1.3.0'']" example_fmt
            "[VStr ''left-pad'', VStr ''1.0.0'']"]
    by simp
qed

end
